theory Spec2Isabelle
  imports Main
begin

section \<open>Python strings\<close>

text \<open>
  A Python \<open>str\<close> is modelled as a \<open>string\<close> whose characters are the code points
  below 256. \<open>str.isspace\<close> holds on that range for tab, line feed, vertical tab, form
  feed, carriage return, the four separators 28..31, space, NEL (133) and the
  no-break space (160).
\<close>

definition py_isspace :: "char \<Rightarrow> bool" where
  "py_isspace c =
     (let n = (of_char c :: nat)
      in (9 \<le> n \<and> n \<le> 13) \<or> (28 \<le> n \<and> n \<le> 32) \<or> n = 133 \<or> n = 160)"

text \<open>\<open>str.strip()\<close> without argument removes leading and trailing whitespace.\<close>

definition py_lstrip :: "string \<Rightarrow> string" where
  "py_lstrip s = dropWhile py_isspace s"

definition py_rstrip :: "string \<Rightarrow> string" where
  "py_rstrip s = rev (dropWhile py_isspace (rev s))"

definition py_strip :: "string \<Rightarrow> string" where
  "py_strip s = py_rstrip (py_lstrip s)"

text \<open>
  \<open>str.split(sep)\<close> with a one-character separator: the pieces between the separators,
  empty pieces kept, so that the empty string gives one empty piece.
\<close>

fun py_split :: "char \<Rightarrow> string \<Rightarrow> string list" where
  "py_split sep [] = [[]]"
| "py_split sep (c # cs) =
     (if c = sep then [] # py_split sep cs
      else (case py_split sep cs of
              [] \<Rightarrow> [[c]]
            | w # ws \<Rightarrow> (c # w) # ws))"

section \<open>entrypoint\_base.py: comma\_sep\_to\_list\<close>

text \<open>
  \<^verbatim>\<open>
  def comma_sep_to_list(string: str) -> List[str]:
      string = string.strip() if string else ""
      return list(map(str.strip, string.split(","))) if string else []
  \<close>
  A \<open>str\<close> is falsy exactly when it is empty.
\<close>

definition comma_sep_to_list :: "string \<Rightarrow> string list" where
  "comma_sep_to_list string =
     (let string = (if string \<noteq> [] then py_strip string else [])
      in if string \<noteq> [] then map py_strip (py_split CHR '','' string) else [])"

section \<open>entrypoint\_base.py: exceptions\<close>

text \<open>
  A raised exception is a value. The constructors stand for the classes the source
  raises or catches, each with every subclass of it, and carry the text that \<open>str(e)\<close>
  gives; \<open>OtherException\<close> is an exception of any other class.
\<close>

datatype py_exception =
    ValueError string
  | RuntimeError string
  | IndexError string
  | KeyError string
  | AttributeError string
  | EntrypointInvalidArgException string
  | OtherException string

fun py_str :: "py_exception \<Rightarrow> string" where
  "py_str (ValueError m) = m"
| "py_str (RuntimeError m) = m"
| "py_str (IndexError m) = m"
| "py_str (KeyError m) = m"
| "py_str (AttributeError m) = m"
| "py_str (EntrypointInvalidArgException m) = m"
| "py_str (OtherException m) = m"

text \<open>
  \<^verbatim>\<open>
  class EntrypointInvalidArgException(Exception):
      def __init__(self, arg: str, msg: str):
          super().__init__(f"Invalid args {arg}: {msg}")
  \<close>
\<close>

definition EntrypointInvalidArgException_init :: "string \<Rightarrow> string \<Rightarrow> py_exception" where
  "EntrypointInvalidArgException_init arg msg =
     EntrypointInvalidArgException (''Invalid args '' @ arg @ '': '' @ msg)"

section \<open>entrypoint\_base.py: arguments, token stream and collaborators\<close>

text \<open>
  The text stream behind \<open>--with-token\<close> (an \<open>argparse.FileType("r")\<close> object, by
  default \<open>sys.stdin\<close>): the text not read yet and whether the stream is closed.
  \<open>read()\<close> returns all the text left and leaves the stream at its end; on a closed
  stream it raises \<open>ValueError\<close>.
\<close>

record text_io =
  unread :: string
  closed :: bool

definition read :: "text_io \<Rightarrow> (py_exception + string) \<times> text_io" where
  "read f =
     (if closed f then (Inl (ValueError ''I/O operation on closed file.''), f)
      else (Inr (unread f), f\<lparr>unread := []\<rparr>))"

text \<open>
  \<open>args.with_token\<close> is \<open>None\<close> or a reference to the stream, whose state is kept in the
  world below. A file object is always truthy.
\<close>

datatype text_io_ref = TokenStream

text \<open>The fields of the \<open>argparse.Namespace\<close> that the common layer reads.\<close>

record namespace =
  working_dir :: string
  branch :: string
  committer_name :: string
  committer_email :: string
  author_name :: "string option"
  author_email :: "string option"
  commit_message :: string
  file_patterns :: string
  target_branch :: "string option"
  with_token :: "text_io_ref option"
  pull_request_title :: string
  dry_run :: bool

text \<open>Truthiness of an \<open>Optional[str]\<close>: neither \<open>None\<close> nor the empty string.\<close>

fun truthy :: "string option \<Rightarrow> bool" where
  "truthy None = False"
| "truthy (Some s) = (s \<noteq> [])"

text \<open>
  What the run does to the outside, in the order it does it: reading the token stream,
  calling the provider factory with an access token, asking the two CI detectors,
  running the bot and reporting.
\<close>

datatype event =
    EvRead
  | EvProviderFactory string
  | EvIsGithubActions
  | EvIsGitlabCi
  | EvBotRun
  | EvReportResults

record world =
  token_stream :: text_io
  events :: "event list"

datatype results_reporter =
    GitHubActionsResultsReporter
  | GitLabCIResultsReporter
  | ResultsReporter

text \<open>The keyword arguments of \<open>TrestleBot(...)\<close> and of \<open>bot.run(...)\<close>.\<close>

record trestle_bot =
  bot_working_dir :: string
  bot_branch :: string
  bot_commit_name :: string
  bot_commit_email :: string
  bot_author_name :: "string option"
  bot_author_email :: "string option"
  bot_target_branch :: "string option"

record ('p, 't) run_args =
  run_commit_message :: string
  run_pre_tasks :: "'t list"
  run_patterns :: "string list"
  run_git_provider :: "'p option"
  run_pull_request_title :: string
  run_dry_run :: bool

text \<open>
  The modules \<open>trestlebot.provider_factory\<close>, \<open>trestlebot.github\<close>,
  \<open>trestlebot.gitlab\<close>, \<open>trestlebot.bot\<close> and \<open>trestlebot.reporter\<close> are outside the
  files verified here. Their functions are parameters: the provider factory returns a
  provider of type \<open>'p\<close> or raises, the two detectors answer for the process
  environment of the run, the bot returns results of type \<open>'r\<close> or raises, and
  reporting may raise.
\<close>

record ('p, 't, 'r) env =
  provider_factory :: "string \<Rightarrow> py_exception + 'p"
  is_github_actions :: bool
  is_gitlab_ci :: bool
  bot_run :: "trestle_bot \<Rightarrow> ('p, 't) run_args \<Rightarrow> py_exception + 'r"
  report_results :: "results_reporter \<Rightarrow> 'r \<Rightarrow> py_exception option"

section \<open>entrypoint\_base.py: set\_git\_provider, set\_reporter, run\_base\<close>

text \<open>
  \<^verbatim>\<open>
  try:
      git_provider = GitProviderFactory.provider_factory(access_token)
  except ValueError as e:
      raise EntrypointInvalidArgException("--server-url", str(e))
  except RuntimeError as e:
      raise EntrypointInvalidArgException("--target-branch", str(e)) from e
  \<close>
  An exception of another class is not caught.
\<close>

fun provider_factory_except :: "py_exception \<Rightarrow> py_exception" where
  "provider_factory_except (ValueError m) =
     EntrypointInvalidArgException_init ''--server-url'' (py_str (ValueError m))"
| "provider_factory_except (RuntimeError m) =
     EntrypointInvalidArgException_init ''--target-branch'' (py_str (RuntimeError m))"
| "provider_factory_except e = e"

text \<open>
  \<^verbatim>\<open>
  def set_git_provider(args):
      git_provider = None
      if args.target_branch:
          if not args.with_token:
              raise EntrypointInvalidArgException(
                  "--with-token",
                  "with-token flag must be set when using target-branch")
          access_token = args.with_token.read().strip()
          try: ...
      return git_provider
  \<close>
\<close>

definition set_git_provider ::
  "('p, 't, 'r) env \<Rightarrow> namespace \<Rightarrow> world \<Rightarrow> (py_exception + 'p option) \<times> world" where
  "set_git_provider e args w =
     (if truthy (target_branch args) then
        (case with_token args of
           None \<Rightarrow>
             (Inl (EntrypointInvalidArgException_init ''--with-token''
                     ''with-token flag must be set when using target-branch''), w)
         | Some TokenStream \<Rightarrow>
             (case read (token_stream w) of
                (Inl err, f) \<Rightarrow>
                  (Inl err, w\<lparr>token_stream := f, events := events w @ [EvRead]\<rparr>)
              | (Inr text, f) \<Rightarrow>
                  (let access_token = py_strip text;
                       w' = w\<lparr>token_stream := f,
                              events := events w @ [EvRead, EvProviderFactory access_token]\<rparr>
                   in case provider_factory e access_token of
                        Inl err \<Rightarrow> (Inl (provider_factory_except err), w')
                      | Inr git_provider \<Rightarrow> (Inr (Some git_provider), w'))))
      else (Inr None, w))"

text \<open>
  \<^verbatim>\<open>
  def set_reporter():
      if is_github_actions():
          return GitHubActionsResultsReporter()
      elif is_gitlab_ci():
          return GitLabCIResultsReporter()
      else:
          return ResultsReporter()
  \<close>
\<close>

definition set_reporter :: "('p, 't, 'r) env \<Rightarrow> world \<Rightarrow> results_reporter \<times> world" where
  "set_reporter e w =
     (let w1 = w\<lparr>events := events w @ [EvIsGithubActions]\<rparr>
      in if is_github_actions e then (GitHubActionsResultsReporter, w1)
         else (let w2 = w1\<lparr>events := events w1 @ [EvIsGitlabCi]\<rparr>
               in if is_gitlab_ci e then (GitLabCIResultsReporter, w2)
                  else (ResultsReporter, w2)))"

text \<open>
  \<^verbatim>\<open>
  def run_base(self, args, pre_tasks):
      git_provider = self.set_git_provider(args)
      results_reporter = self.set_reporter()
      bot = TrestleBot(working_dir=args.working_dir, branch=args.branch, ...)
      results = bot.run(commit_message=args.commit_message, pre_tasks=pre_tasks,
                        patterns=comma_sep_to_list(args.file_patterns),
                        git_provider=git_provider, ...)
      results_reporter.report_results(results)
  \<close>
  An exception of any step ends the run there. \<open>TrestleBot(...)\<close> is taken to record its
  keyword arguments.
\<close>

definition run_base ::
  "('p, 't, 'r) env \<Rightarrow> namespace \<Rightarrow> 't list \<Rightarrow> world \<Rightarrow> (py_exception + unit) \<times> world" where
  "run_base e args pre_tasks w =
     (case set_git_provider e args w of
        (Inl err, w1) \<Rightarrow> (Inl err, w1)
      | (Inr git_provider, w1) \<Rightarrow>
          (case set_reporter e w1 of
             (reporter, w2) \<Rightarrow>
               (let bot = \<lparr>bot_working_dir = working_dir args,
                           bot_branch = branch args,
                           bot_commit_name = committer_name args,
                           bot_commit_email = committer_email args,
                           bot_author_name = author_name args,
                           bot_author_email = author_email args,
                           bot_target_branch = target_branch args\<rparr>;
                    w3 = w2\<lparr>events := events w2 @ [EvBotRun]\<rparr>
                in case bot_run e bot
                          \<lparr>run_commit_message = commit_message args,
                           run_pre_tasks = pre_tasks,
                           run_patterns = comma_sep_to_list (file_patterns args),
                           run_git_provider = git_provider,
                           run_pull_request_title = pull_request_title args,
                           run_dry_run = dry_run args\<rparr> of
                     Inl err \<Rightarrow> (Inl err, w3)
                   | Inr results \<Rightarrow>
                       (let w4 = w3\<lparr>events := events w3 @ [EvReportResults]\<rparr>
                        in case report_results e reporter results of
                             Some err \<Rightarrow> (Inl err, w4)
                           | None \<Rightarrow> (Inr (), w4)))))"

section \<open>entrypoint\_base.py: handle\_exception\<close>

text \<open>
  The exit codes of \<open>trestlebot.const\<close>, a module outside the files verified here; they
  are a parameter of \<open>handle_exception\<close>.
\<close>

record const =
  SUCCESS_EXIT_CODE :: int
  ERROR_EXIT_CODE :: int
  INVALID_ARGS_EXIT_CODE :: int

text \<open>
  \<^verbatim>\<open>
  def handle_exception(exception, msg="Exception occurred during execution") -> int:
      logger.error(msg + f": {exception}")
      if isinstance(exception, EntrypointInvalidArgException):
          return const.INVALID_ARGS_EXIT_CODE
      return const.ERROR_EXIT_CODE
  \<close>
  The model returns the exit code together with the line given to \<open>logger.error\<close>.
\<close>

fun isinstance_EntrypointInvalidArgException :: "py_exception \<Rightarrow> bool" where
  "isinstance_EntrypointInvalidArgException (EntrypointInvalidArgException m) = True"
| "isinstance_EntrypointInvalidArgException e = False"

definition handle_exception :: "const \<Rightarrow> py_exception \<Rightarrow> string \<Rightarrow> int \<times> string" where
  "handle_exception c exception msg =
     (let logged = msg @ '': '' @ py_str exception
      in if isinstance_EntrypointInvalidArgException exception
         then (INVALID_ARGS_EXIT_CODE c, logged)
         else (ERROR_EXIT_CODE c, logged))"


text \<open>
  Modelled from the spec: the values of the exit codes in \<open>trestlebot/const.py\<close> are
  missing. The spec says: "Exit codes: 0 success; a dedicated non-zero code for
  invalid-argument failures; a distinct generic non-zero code for all other failures."
\<close>

definition exit_codes_as_specified :: "const \<Rightarrow> bool" where
  "exit_codes_as_specified c \<longleftrightarrow>
     SUCCESS_EXIT_CODE c = 0 \<and> INVALID_ARGS_EXIT_CODE c \<noteq> 0 \<and> ERROR_EXIT_CODE c \<noteq> 0
     \<and> INVALID_ARGS_EXIT_CODE c \<noteq> ERROR_EXIT_CODE c"

text \<open>
  Modelled from the spec: the boundary that turns the outcome of a run into the exit
  code of the process (the \<open>main\<close> functions of the entrypoints) is missing. The spec
  says: "map any raised error to an exit code" and "Error mapping: InvalidArgument ->
  dedicated bad arguments exit code; any other failure -> generic error exit code;
  success -> zero." A raised exception goes through \<open>handle_exception\<close> with its default
  message.
\<close>

definition exit_code :: "const \<Rightarrow> py_exception + unit \<Rightarrow> int" where
  "exit_code c outcome =
     (case outcome of
        Inr u \<Rightarrow> SUCCESS_EXIT_CODE c
      | Inl exception \<Rightarrow> fst (handle_exception c exception ''Exception occurred during execution''))"

section \<open>Example configurations\<close>

text \<open>
  A run that asks for a pull request against \<open>main\<close> with a token stream, collaborators
  that all succeed under both CI indicators, collaborators whose provider factory
  raises, and a world whose token stream holds a given text.
\<close>

definition args_pr :: namespace where
  "args_pr = \<lparr>working_dir = ''.'', branch = ''update'', committer_name = ''bot'',
              committer_email = ''bot@example.com'', author_name = None, author_email = None,
              commit_message = ''chore: automatic updates'', file_patterns = ''.'',
              target_branch = Some ''main'', with_token = Some TokenStream,
              pull_request_title = ''Automatic updates from trestlebot'', dry_run = False\<rparr>"

definition env_ok :: "(string, unit, string) env" where
  "env_ok = \<lparr>provider_factory = (\<lambda>token. Inr ''GitHub''),
             is_github_actions = True, is_gitlab_ci = True,
             bot_run = (\<lambda>bot args. Inr ''results''),
             report_results = (\<lambda>reporter results. None)\<rparr>"

definition env_raising :: "py_exception \<Rightarrow> (string, unit, string) env" where
  "env_raising err = env_ok\<lparr>provider_factory := (\<lambda>token. Inl err)\<rparr>"

definition world_of :: "string \<Rightarrow> world" where
  "world_of text = \<lparr>token_stream = \<lparr>unread = text, closed = False\<rparr>, events = []\<rparr>"

definition exit_codes :: const where
  "exit_codes = \<lparr>SUCCESS_EXIT_CODE = 0, ERROR_EXIT_CODE = 1, INVALID_ARGS_EXIT_CODE = 2\<rparr>"

section \<open>utils.py: ruamel.yaml documents\<close>

text \<open>
  A value of a document loaded by \<open>ruamel.yaml\<close>: \<open>None\<close>, a scalar, a \<open>CommentedMap\<close> or
  a \<open>CommentedSeq\<close>. A \<open>CommentedMap\<close> is an ordered dictionary, here the list of its
  entries in order (with distinct keys). A map or sequence carries its comments in its
  attribute \<open>ca\<close>, which has three parts: \<open>ca.comment\<close>, the comment of the node itself
  (a comment before the first key of a document is kept there), a list of slots that is
  empty when the attribute is \<open>None\<close>; \<open>ca.items\<close>, a dictionary from a key or index of
  the node to a list of slots; and \<open>ca.end\<close>, the comment tokens after the last entry.
  A slot holds \<open>None\<close>, one \<open>CommentToken\<close>, a list whose elements are \<open>CommentToken\<close>s or
  something else, or some other object. Merge keys are not modelled.
\<close>

datatype comment_token = CommentToken (token_value: string)

datatype group_item = GroupToken comment_token | GroupOther

datatype comment =
    CommentNone
  | CommentSingle comment_token
  | CommentGroup "group_item list"
  | CommentOther

datatype 'k comment_attrib =
  Ca (ca_comment: "comment list")
     (ca_items: "('k \<times> comment list) list")
     (ca_end: "comment_token list")

datatype node =
    PyNone
  | Scalar string
  | CommentedMap "(string \<times> node) list" "string comment_attrib"
  | CommentedSeq "node list" "nat comment_attrib"

text \<open>
  Reading an attribute that the value does not have raises \<open>AttributeError\<close> with the
  name of the type of the value and of the attribute; a scalar is taken to be a \<open>str\<close>.
\<close>

fun type_name :: "node \<Rightarrow> string" where
  "type_name PyNone = ''NoneType''"
| "type_name (Scalar s) = ''str''"
| "type_name (CommentedMap es ca) = ''CommentedMap''"
| "type_name (CommentedSeq xs ca) = ''CommentedSeq''"

definition no_attribute :: "node \<Rightarrow> string \<Rightarrow> py_exception" where
  "no_attribute obj attr =
     AttributeError ([CHR 0x27] @ type_name obj @ [CHR 0x27] @ '' object has no attribute ''
                       @ [CHR 0x27] @ attr @ [CHR 0x27])"

subsection \<open>The ordered dictionary under a CommentedMap\<close>

text \<open>\<open>d.get(key)\<close>: the value, or \<open>None\<close> when the key is missing.\<close>

definition od_get :: "(string \<times> node) list \<Rightarrow> string \<Rightarrow> node" where
  "od_get es key = (case map_of es key of None \<Rightarrow> PyNone | Some v \<Rightarrow> v)"

text \<open>\<open>d[key]\<close>: the value, or \<open>KeyError\<close>.\<close>

definition od_getitem :: "(string \<times> node) list \<Rightarrow> string \<Rightarrow> py_exception + node" where
  "od_getitem es key = (case map_of es key of None \<Rightarrow> Inl (KeyError key) | Some v \<Rightarrow> Inr v)"

text \<open>\<open>d[key] = value\<close>: an existing key keeps its place, a new key goes to the end.\<close>

definition od_setitem :: "(string \<times> node) list \<Rightarrow> string \<Rightarrow> node \<Rightarrow> (string \<times> node) list" where
  "od_setitem es key v =
     (if key \<in> set (map fst es) then map (\<lambda>(k, old). if k = key then (k, v) else (k, old)) es
      else es @ [(key, v)])"

text \<open>\<open>del d[key]\<close>, for a key that is present.\<close>

definition od_delitem :: "(string \<times> node) list \<Rightarrow> string \<Rightarrow> (string \<times> node) list" where
  "od_delitem es key = filter (\<lambda>(k, v). k \<noteq> key) es"

text \<open>\<open>d.move_to_end(key)\<close>: \<open>KeyError\<close> when the key is missing.\<close>

definition od_move_to_end ::
  "(string \<times> node) list \<Rightarrow> string \<Rightarrow> py_exception + (string \<times> node) list" where
  "od_move_to_end es key =
     (case map_of es key of
        None \<Rightarrow> Inl (KeyError key)
      | Some v \<Rightarrow> Inr (filter (\<lambda>(k, v). k \<noteq> key) es @ [(key, v)]))"

text \<open>\<open>keys[idx]\<close> on a Python list: a negative index counts from the end.\<close>

definition py_list_getitem :: "'a list \<Rightarrow> int \<Rightarrow> py_exception + 'a" where
  "py_list_getitem xs idx =
     (if 0 \<le> idx \<and> idx < int (length xs) then Inr (xs ! nat idx)
      else if idx < 0 \<and> - int (length xs) \<le> idx then Inr (xs ! nat (int (length xs) + idx))
      else Inl (IndexError ''list index out of range''))"

text \<open>
  \<open>CommentedMap.insert(pos, key, value)\<close> of ruamel.yaml 0.18, without merge keys and
  without the optional comment:
  \<^verbatim>\<open>
  def insert(self, pos, key, value, comment=None):
      if key in self._ok:
          del self[key]
      keys = [k for k in self.keys() if k in self._ok]
      ...
      idx_min = pos
      idx_max = len(self._ok)
      self[key] = value  # at the end
      for idx in range(idx_min, idx_max):
          self.move_to_end(keys[idx])
      self._ok.add(key)
  \<close>
  Without merge keys \<open>_ok\<close> is the set of the keys. The result is the exception raised,
  if any, and the entries as the call leaves them.
\<close>

function move_range_to_end ::
  "string list \<Rightarrow> int \<Rightarrow> int \<Rightarrow> (string \<times> node) list
     \<Rightarrow> py_exception option \<times> (string \<times> node) list" where
  "move_range_to_end keys idx idx_max es =
     (if idx < idx_max then
        (case py_list_getitem keys idx of
           Inl err \<Rightarrow> (Some err, es)
         | Inr key \<Rightarrow>
             (case od_move_to_end es key of
                Inl err \<Rightarrow> (Some err, es)
              | Inr es' \<Rightarrow> move_range_to_end keys (idx + 1) idx_max es'))
      else (None, es))"
  by pat_completeness auto
termination
  by (relation "measure (\<lambda>(keys, idx, idx_max, es). nat (idx_max - idx))") auto

declare move_range_to_end.simps [simp del]

definition CommentedMap_insert ::
  "int \<Rightarrow> string \<Rightarrow> node \<Rightarrow> (string \<times> node) list
     \<Rightarrow> py_exception option \<times> (string \<times> node) list" where
  "CommentedMap_insert pos key v es =
     (let es1 = (if key \<in> set (map fst es) then od_delitem es key else es);
          keys = map fst es1;
          idx_min = pos;
          idx_max = int (length es1);
          es2 = od_setitem es1 key v
      in move_range_to_end keys idx_min idx_max es2)"

section \<open>utils.py: populate\_if\_dict\_field\_not\_exist\<close>

text \<open>
  \<^verbatim>\<open>
  def populate_if_dict_field_not_exist(data: CommentedMap, field_name: str,
                                       default_value: Any) -> Any:
      if data.get(field_name) is None:
          # insert new filed to -2 position, avoid extra newline
          data.insert(len(data) - 1, field_name, default_value)
      return data[field_name]
  \<close>
  The model returns the value or the exception together with the map as the call
  leaves it. A value that is not a \<open>CommentedMap\<close> has no \<open>get\<close>.
\<close>

fun populate_if_dict_field_not_exist ::
  "node \<Rightarrow> string \<Rightarrow> node \<Rightarrow> (py_exception + node) \<times> node" where
  "populate_if_dict_field_not_exist (CommentedMap es ca) field_name default_value =
     (if od_get es field_name = PyNone then
        (case CommentedMap_insert (int (length es) - 1) field_name default_value es of
           (Some err, es') \<Rightarrow> (Inl err, CommentedMap es' ca)
         | (None, es') \<Rightarrow> (od_getitem es' field_name, CommentedMap es' ca))
      else (od_getitem es field_name, CommentedMap es ca))"
| "populate_if_dict_field_not_exist data field_name default_value =
     (Inl (no_attribute data ''get''), data)"

section \<open>utils.py: get\_comments\_from\_yaml\_data\<close>

text \<open>
  \<^verbatim>\<open>
  def get_comments_from_yaml_data(yaml_data: Any) -> List[str]:
      comments: List[str] = []
      if not yaml_data.ca.items:
          return comments
      for _, comment_info in yaml_data.ca.items.items():
          for comment in comment_info:
              if not comment:
                  continue
              if isinstance(comment, List):
                  for c in comment:
                      if isinstance(c, CommentToken):
                          comments.append(c.value)
              elif isinstance(comment, CommentToken):
                  comments.append(comment.value)
      return comments
  \<close>
  The three loops, innermost first, each with the list \<open>comments\<close> built so far. \<open>None\<close>
  and the empty list are falsy; a \<open>CommentToken\<close> is truthy whatever its text.
\<close>

fun comments_of_group :: "group_item list \<Rightarrow> string list \<Rightarrow> string list" where
  "comments_of_group [] comments = comments"
| "comments_of_group (GroupToken c # cs) comments =
     comments_of_group cs (comments @ [token_value c])"
| "comments_of_group (GroupOther # cs) comments = comments_of_group cs comments"

fun comments_of_info :: "comment list \<Rightarrow> string list \<Rightarrow> string list" where
  "comments_of_info [] comments = comments"
| "comments_of_info (CommentNone # rest) comments = comments_of_info rest comments"
| "comments_of_info (CommentGroup g # rest) comments =
     (if g = [] then comments_of_info rest comments
      else comments_of_info rest (comments_of_group g comments))"
| "comments_of_info (CommentSingle c # rest) comments =
     comments_of_info rest (comments @ [token_value c])"
| "comments_of_info (CommentOther # rest) comments = comments_of_info rest comments"

fun comments_of_items :: "('k \<times> comment list) list \<Rightarrow> string list \<Rightarrow> string list" where
  "comments_of_items [] comments = comments"
| "comments_of_items ((key, comment_info) # rest) comments =
     comments_of_items rest (comments_of_info comment_info comments)"

fun get_comments_from_yaml_data :: "node \<Rightarrow> py_exception + string list" where
  "get_comments_from_yaml_data (CommentedMap es ca) =
     (if ca_items ca = [] then Inr [] else Inr (comments_of_items (ca_items ca) []))"
| "get_comments_from_yaml_data (CommentedSeq xs ca) =
     (if ca_items ca = [] then Inr [] else Inr (comments_of_items (ca_items ca) []))"
| "get_comments_from_yaml_data yaml_data = Inl (no_attribute yaml_data ''ca'')"

subsection \<open>The comment tokens of a document, in the words of the spec\<close>

text \<open>
  The comment tokens the spec counts, stated apart from the loops of the source: the
  tokens of a slot are a single token or the tokens of a group, the tokens attached
  to the keys of one node are those of all the slots of its \<open>ca.items\<close>, in order, and
  the tokens attached to one node are those of its \<open>ca.comment\<close>, of its \<open>ca.items\<close> and
  of its \<open>ca.end\<close>.
\<close>

fun spec_tokens_of_comment :: "comment \<Rightarrow> comment_token list" where
  "spec_tokens_of_comment (CommentSingle c) = [c]"
| "spec_tokens_of_comment (CommentGroup g) =
     concat (map (\<lambda>i. case i of GroupToken c \<Rightarrow> [c] | GroupOther \<Rightarrow> []) g)"
| "spec_tokens_of_comment other = []"

definition spec_tokens_of_items :: "('k \<times> comment list) list \<Rightarrow> comment_token list" where
  "spec_tokens_of_items items = concat (map (\<lambda>(key, info). concat (map spec_tokens_of_comment info)) items)"

definition spec_tokens_of_ca :: "'k comment_attrib \<Rightarrow> comment_token list" where
  "spec_tokens_of_ca ca =
     concat (map spec_tokens_of_comment (ca_comment ca)) @ spec_tokens_of_items (ca_items ca)
       @ ca_end ca"

text \<open>
  The spec speaks of the comment tokens "attached anywhere on its nodes": those of the
  node itself and those of every node below it. A token that the loader stores under two
  nodes is listed once for each.
\<close>

fun spec_document_tokens :: "node \<Rightarrow> comment_token list" where
  "spec_document_tokens PyNone = []"
| "spec_document_tokens (Scalar s) = []"
| "spec_document_tokens (CommentedMap es ca) =
     spec_tokens_of_ca ca @ concat (map (\<lambda>kv. spec_document_tokens (snd kv)) es)"
| "spec_document_tokens (CommentedSeq xs ca) =
     spec_tokens_of_ca ca @ concat (map spec_document_tokens xs)"

section \<open>Example documents\<close>

text \<open>
  A map with two entries and no comments; the document of the two lines \<open># top\<close> and
  \<open>a: 1\<close>, whose comment before the first key is kept in \<open>ca.comment\<close>; a map whose only
  comment sits on a key of a nested map; and a map with comments on its own keys: a
  group with a non-token element before the key \<open>a\<close>, a comment at the end of its line,
  an empty group, and a comment on \<open>b\<close>.
\<close>

definition doc_ab :: node where
  "doc_ab = CommentedMap [(''a'', Scalar ''1''), (''b'', Scalar ''2'')] (Ca [] [] [])"

definition doc_top :: node where
  "doc_top =
     CommentedMap [(''a'', Scalar ''1'')]
       (Ca [CommentNone, CommentGroup [GroupToken (CommentToken (''# top'' @ [CHR 0x0A]))]]
           [] [])"

definition doc_nested :: node where
  "doc_nested =
     CommentedMap
       [(''a'', CommentedMap [(''b'', Scalar ''1'')]
                  (Ca [] [(''b'', [CommentNone, CommentNone,
                                   CommentSingle (CommentToken (''# nested'' @ [CHR 0x0A])),
                                   CommentNone])] []))]
       (Ca [] [] [])"

definition doc_flat :: node where
  "doc_flat =
     CommentedMap [(''a'', Scalar ''1''), (''b'', Scalar ''2'')]
       (Ca []
          [(''a'', [CommentNone,
                    CommentGroup [GroupToken (CommentToken ''# p1''), GroupOther,
                                  GroupToken (CommentToken ''# p2'')],
                    CommentSingle (CommentToken ''# eol''),
                    CommentGroup []]),
           (''b'', [CommentOther, CommentNone, CommentSingle (CommentToken ''# b'')])]
          [])"

section \<open>Properties of comma\_sep\_to\_list\<close>

lemma py_strip_all_space:
  assumes "\<forall>c \<in> set s. py_isspace c"
  shows "py_strip s = []"
proof -
  from assms have "py_lstrip s = []" by (simp add: py_lstrip_def)
  then show ?thesis by (simp add: py_strip_def py_rstrip_def)
qed

lemma py_split_not_Nil: "py_split sep s \<noteq> []"
  by (induction s) (auto split: list.splits)

lemma comma_sep_to_list_unfold:
  "comma_sep_to_list s =
     (if py_strip s = [] then [] else map py_strip (py_split CHR '','' (py_strip s)))"
  by (cases "s = []") (simp_all add: comma_sep_to_list_def Let_def py_strip_all_space)

text \<open>
  Claim C7. \<open>comma_sep_to_list(" a, b ,c")\<close> is \<open>["a", "b", "c"]\<close>; every input that is
  empty or consists of whitespace only gives the empty list; and in general the
  result is the empty list when the stripped input is empty, and otherwise the stripped
  pieces of the stripped input split at its commas.
\<close>

theorem comma_sep_to_list_spec:
  "comma_sep_to_list '' a, b ,c'' = [''a'', ''b'', ''c'']
   \<and> comma_sep_to_list [] = []
   \<and> (\<forall>s. (\<forall>c \<in> set s. py_isspace c) \<longrightarrow> comma_sep_to_list s = [])
   \<and> (\<forall>s. comma_sep_to_list s =
          (if py_strip s = [] then [] else map py_strip (py_split CHR '','' (py_strip s))))"
proof (intro conjI allI impI)
  show "comma_sep_to_list '' a, b ,c'' = [''a'', ''b'', ''c'']"
    by (simp add: comma_sep_to_list_def py_strip_def py_lstrip_def py_rstrip_def py_isspace_def)
next
  show "comma_sep_to_list [] = []"
    by (simp add: comma_sep_to_list_def)
next
  fix s assume "\<forall>c \<in> set s. py_isspace c"
  then show "comma_sep_to_list s = []"
    by (simp add: comma_sep_to_list_unfold py_strip_all_space)
next
  fix s
  show "comma_sep_to_list s =
          (if py_strip s = [] then [] else map py_strip (py_split CHR '','' (py_strip s)))"
    by (rule comma_sep_to_list_unfold)
qed

theorem comma_sep_to_list_spec_witness:
  "py_isspace CHR '' '' \<and> py_isspace (CHR 0x09) \<and> py_isspace (CHR 0x0A)
   \<and> comma_sep_to_list [CHR '' '', CHR 0x09, CHR 0x0A] = []"
proof -
  have h: "\<forall>c \<in> set [CHR '' '', CHR 0x09, CHR 0x0A]. py_isspace c"
    by (simp add: py_isspace_def)
  from comma_sep_to_list_spec have
    "\<forall>s. (\<forall>c \<in> set s. py_isspace c) \<longrightarrow> comma_sep_to_list s = []" by blast
  with h have "comma_sep_to_list [CHR '' '', CHR 0x09, CHR 0x0A] = []" by blast
  with h show ?thesis by simp
qed

section \<open>Properties of set\_git\_provider\<close>

lemma set_git_provider_with_token:
  assumes "truthy (target_branch args)" "with_token args = Some r" "\<not> closed (token_stream w)"
  shows "set_git_provider e args w =
     ((case provider_factory e (py_strip (unread (token_stream w))) of
         Inl err \<Rightarrow> Inl (provider_factory_except err)
       | Inr p \<Rightarrow> Inr (Some p)),
      w\<lparr>token_stream := (token_stream w)\<lparr>unread := []\<rparr>,
        events := events w @ [EvRead, EvProviderFactory (py_strip (unread (token_stream w)))]\<rparr>)"
  using assms by (cases r) (simp add: set_git_provider_def read_def Let_def split: sum.splits)

lemma set_git_provider_closed:
  "closed (token_stream (snd (set_git_provider e args w))) = closed (token_stream w)"
  by (simp add: set_git_provider_def read_def Let_def
       split: sum.splits option.splits text_io_ref.splits)

lemma set_git_provider_events:
  "events (snd (set_git_provider e args w)) = events w
   \<or> (\<exists>rest. events (snd (set_git_provider e args w)) = events w @ EvRead # rest
         \<and> EvRead \<notin> set rest)"
  by (simp add: set_git_provider_def read_def Let_def
       split: sum.splits option.splits text_io_ref.splits)

text \<open>
  Claim C1, as stated, fails: with \<open>target_branch\<close> set and a token stream that is present
  but holds no text, the token read is empty, yet the stream is read, the provider factory
  is called with the empty token and its provider is returned.
\<close>

theorem set_git_provider_empty_token_counterexample:
  "truthy (target_branch args_pr)
   \<and> py_strip (unread (token_stream (world_of ''''))) = []
   \<and> set_git_provider env_ok args_pr (world_of '''')
       = (Inr (Some ''GitHub''),
          \<lparr>token_stream = \<lparr>unread = [], closed = False\<rparr>,
           events = [EvRead, EvProviderFactory '''']\<rparr>)"
  by (simp add: args_pr_def env_ok_def world_of_def set_git_provider_def read_def
      py_strip_def py_lstrip_def py_rstrip_def)

text \<open>
  Claim C1, amended. For every configuration in which \<open>target_branch\<close> is set and
  \<open>with_token\<close> is missing (\<open>None\<close>), \<open>set_git_provider\<close> raises
  \<open>EntrypointInvalidArgException\<close> for \<open>--with-token\<close>, and the world is as before: the
  stream has not been read and the provider factory has not been called.
\<close>

theorem set_git_provider_missing_token:
  "truthy (target_branch args) \<Longrightarrow> with_token args = None \<Longrightarrow>
   set_git_provider e args w =
     (Inl (EntrypointInvalidArgException_init ''--with-token''
             ''with-token flag must be set when using target-branch''), w)"
  by (simp add: set_git_provider_def)

theorem set_git_provider_missing_token_witness:
  "truthy (target_branch (args_pr\<lparr>with_token := None\<rparr>))
   \<and> with_token (args_pr\<lparr>with_token := None\<rparr>) = None
   \<and> set_git_provider env_ok (args_pr\<lparr>with_token := None\<rparr>) (world_of ''token'')
       = (Inl (EntrypointInvalidArgException
            ''Invalid args --with-token: with-token flag must be set when using target-branch''),
          world_of ''token'')"
proof -
  have h1: "truthy (target_branch (args_pr\<lparr>with_token := None\<rparr>))"
    by (simp add: args_pr_def)
  have h2: "with_token (args_pr\<lparr>with_token := None\<rparr>) = None"
    by simp
  from set_git_provider_missing_token [OF h1 h2, of env_ok "world_of ''token''"] h1 h2
  show ?thesis by (simp add: EntrypointInvalidArgException_init_def)
qed

text \<open>
  Claim C2. For every configuration in which \<open>target_branch\<close> is unset (\<open>None\<close> or the
  empty string), \<open>set_git_provider\<close> returns \<open>None\<close> whatever \<open>with_token\<close> is, and the
  world is as before.
\<close>

theorem set_git_provider_no_target_branch:
  "\<not> truthy (target_branch args) \<Longrightarrow> set_git_provider e args w = (Inr None, w)"
  by (simp add: set_git_provider_def)

theorem set_git_provider_no_target_branch_witness:
  "\<not> truthy (target_branch (args_pr\<lparr>target_branch := None\<rparr>))
   \<and> with_token (args_pr\<lparr>target_branch := None\<rparr>) = Some TokenStream
   \<and> set_git_provider env_ok (args_pr\<lparr>target_branch := None\<rparr>) (world_of ''token'')
       = (Inr None, world_of ''token'')
   \<and> \<not> truthy (target_branch (args_pr\<lparr>target_branch := Some [], with_token := None\<rparr>))
   \<and> set_git_provider env_ok (args_pr\<lparr>target_branch := Some [], with_token := None\<rparr>)
         (world_of ''token'')
       = (Inr None, world_of ''token'')"
proof -
  have h1: "\<not> truthy (target_branch (args_pr\<lparr>target_branch := None\<rparr>))"
    by simp
  have h2: "\<not> truthy (target_branch (args_pr\<lparr>target_branch := Some [], with_token := None\<rparr>))"
    by simp
  from set_git_provider_no_target_branch [OF h1, of env_ok "world_of ''token''"]
       set_git_provider_no_target_branch [OF h2, of env_ok "world_of ''token''"] h1 h2
  show ?thesis by (simp add: args_pr_def)
qed

text \<open>
  Claim C5, as stated, fails: with \<open>target_branch\<close> and a token present, an exception of
  the provider factory that is neither a \<open>ValueError\<close> nor a \<open>RuntimeError\<close> leaves
  \<open>set_git_provider\<close> as it is.
\<close>

theorem set_git_provider_other_exception_counterexample:
  "truthy (target_branch args_pr) \<and> with_token args_pr = Some TokenStream
   \<and> py_strip (unread (token_stream (world_of ''token''))) = ''token''
   \<and> provider_factory (env_raising (OtherException ''Connection refused'')) ''token''
       = Inl (OtherException ''Connection refused'')
   \<and> fst (set_git_provider (env_raising (OtherException ''Connection refused'')) args_pr
            (world_of ''token''))
       = Inl (OtherException ''Connection refused'')"
  by (simp add: args_pr_def env_raising_def env_ok_def world_of_def set_git_provider_def
      read_def py_strip_def py_lstrip_def py_rstrip_def py_isspace_def)

text \<open>
  Claim C5, amended. For every configuration with \<open>target_branch\<close> set and a readable
  token stream, a \<open>ValueError\<close> of the provider factory is raised again as
  \<open>EntrypointInvalidArgException\<close> for \<open>--server-url\<close> and a \<open>RuntimeError\<close> as one for
  \<open>--target-branch\<close>, each with the text of the underlying exception, so neither leaves
  \<open>set_git_provider\<close> as it is; an exception of any other class is raised unchanged.
\<close>

theorem set_git_provider_wraps_factory_errors:
  assumes "truthy (target_branch args)"
    and "with_token args = Some r"
    and "\<not> closed (token_stream w)"
  shows "(\<forall>m. provider_factory e (py_strip (unread (token_stream w))) = Inl (ValueError m) \<longrightarrow>
            fst (set_git_provider e args w)
              = Inl (EntrypointInvalidArgException (''Invalid args --server-url: '' @ m)))
       \<and> (\<forall>m. provider_factory e (py_strip (unread (token_stream w))) = Inl (RuntimeError m) \<longrightarrow>
            fst (set_git_provider e args w)
              = Inl (EntrypointInvalidArgException (''Invalid args --target-branch: '' @ m)))
       \<and> (\<forall>err. provider_factory e (py_strip (unread (token_stream w))) = Inl err \<longrightarrow>
            (\<forall>m. err \<noteq> ValueError m) \<longrightarrow> (\<forall>m. err \<noteq> RuntimeError m) \<longrightarrow>
            fst (set_git_provider e args w) = Inl err)"
proof (intro conjI allI impI)
  fix m assume "provider_factory e (py_strip (unread (token_stream w))) = Inl (ValueError m)"
  then show "fst (set_git_provider e args w)
              = Inl (EntrypointInvalidArgException (''Invalid args --server-url: '' @ m))"
    by (simp add: set_git_provider_with_token [OF assms] EntrypointInvalidArgException_init_def)
next
  fix m assume "provider_factory e (py_strip (unread (token_stream w))) = Inl (RuntimeError m)"
  then show "fst (set_git_provider e args w)
              = Inl (EntrypointInvalidArgException (''Invalid args --target-branch: '' @ m))"
    by (simp add: set_git_provider_with_token [OF assms] EntrypointInvalidArgException_init_def)
next
  fix err
  assume "provider_factory e (py_strip (unread (token_stream w))) = Inl err"
    and "\<forall>m. err \<noteq> ValueError m" and "\<forall>m. err \<noteq> RuntimeError m"
  then show "fst (set_git_provider e args w) = Inl err"
    by (cases err) (simp_all add: set_git_provider_with_token [OF assms])
qed

theorem set_git_provider_wraps_factory_errors_witness:
  "truthy (target_branch args_pr) \<and> with_token args_pr = Some TokenStream
   \<and> \<not> closed (token_stream (world_of ''token''))
   \<and> provider_factory (env_raising (ValueError ''bad url'')) ''token''
       = Inl (ValueError ''bad url'')
   \<and> fst (set_git_provider (env_raising (ValueError ''bad url'')) args_pr (world_of ''token''))
       = Inl (EntrypointInvalidArgException ''Invalid args --server-url: bad url'')
   \<and> provider_factory (env_raising (RuntimeError ''no provider'')) ''token''
       = Inl (RuntimeError ''no provider'')
   \<and> fst (set_git_provider (env_raising (RuntimeError ''no provider'')) args_pr
            (world_of ''token''))
       = Inl (EntrypointInvalidArgException ''Invalid args --target-branch: no provider'')
   \<and> fst (set_git_provider (env_raising (KeyError ''token'')) args_pr (world_of ''token''))
       = Inl (KeyError ''token'')"
proof -
  have h1: "truthy (target_branch args_pr)" by (simp add: args_pr_def)
  have h2: "with_token args_pr = Some TokenStream" by (simp add: args_pr_def)
  have h3: "\<not> closed (token_stream (world_of ''token''))" by (simp add: world_of_def)
  have tok: "py_strip (unread (token_stream (world_of ''token''))) = ''token''"
    by (simp add: world_of_def py_strip_def py_lstrip_def py_rstrip_def py_isspace_def)
  have f: "\<And>err. provider_factory (env_raising err) ''token'' = Inl err"
    by (simp add: env_raising_def)
  from set_git_provider_wraps_factory_errors [OF h1 h2 h3, of "env_raising (ValueError ''bad url'')"]
       set_git_provider_wraps_factory_errors [OF h1 h2 h3, of "env_raising (RuntimeError ''no provider'')"]
       set_git_provider_wraps_factory_errors [OF h1 h2 h3, of "env_raising (KeyError ''token'')"]
       h1 h2 h3
  show ?thesis by (simp add: tok f)
qed

section \<open>Properties of set\_reporter\<close>

lemma set_reporter_stream: "token_stream (snd (set_reporter e w)) = token_stream w"
  by (simp add: set_reporter_def Let_def)

lemma set_reporter_events:
  "\<exists>evs. events (snd (set_reporter e w)) = events w @ evs \<and> EvRead \<notin> set evs"
  by (simp add: set_reporter_def Let_def)

text \<open>
  Claim C9. \<open>set_reporter\<close> asks for GitHub Actions first and for GitLab CI only when the
  first answer is no; when both indicators are present the GitHub Actions reporter is
  returned, the GitHub Actions reporter is returned exactly when its indicator is
  present, and the plain \<open>ResultsReporter\<close> exactly when neither is.
\<close>

theorem set_reporter_precedence:
  "(is_github_actions e \<and> is_gitlab_ci e \<longrightarrow>
      fst (set_reporter e w) = GitHubActionsResultsReporter)
   \<and> (fst (set_reporter e w) = GitHubActionsResultsReporter \<longleftrightarrow> is_github_actions e)
   \<and> (fst (set_reporter e w) = ResultsReporter \<longleftrightarrow> \<not> is_github_actions e \<and> \<not> is_gitlab_ci e)
   \<and> events (snd (set_reporter e w)) =
        events w @ (if is_github_actions e then [EvIsGithubActions]
                    else [EvIsGithubActions, EvIsGitlabCi])"
  by (simp add: set_reporter_def Let_def)

theorem set_reporter_precedence_witness:
  "is_github_actions env_ok \<and> is_gitlab_ci env_ok
   \<and> fst (set_reporter env_ok (world_of '''')) = GitHubActionsResultsReporter
   \<and> events (snd (set_reporter env_ok (world_of ''''))) = [EvIsGithubActions]"
proof -
  have h: "is_github_actions env_ok \<and> is_gitlab_ci env_ok" by (simp add: env_ok_def)
  from set_reporter_precedence [of env_ok "world_of ''''"] h
  show ?thesis by (simp add: world_of_def)
qed

section \<open>Properties of run\_base\<close>

lemma run_base_after:
  "\<exists>evs. token_stream (snd (run_base e args pre w))
            = token_stream (snd (set_git_provider e args w))
       \<and> events (snd (run_base e args pre w))
            = events (snd (set_git_provider e args w)) @ evs
       \<and> EvRead \<notin> set evs"
proof (cases "set_git_provider e args w")
  case (Pair r w1)
  show ?thesis
  proof (cases r)
    case (Inl err)
    with Pair show ?thesis by (simp add: run_base_def)
  next
    case (Inr gp)
    obtain rep w2 where rep: "set_reporter e w1 = (rep, w2)" by (cases "set_reporter e w1")
    from set_reporter_events [of e w1] rep obtain evs2
      where evs2: "events w2 = events w1 @ evs2" "EvRead \<notin> set evs2" by auto
    from set_reporter_stream [of e w1] rep have ts: "token_stream w2 = token_stream w1" by simp
    from Pair Inr rep evs2 ts show ?thesis
      by (simp add: run_base_def Let_def split: sum.splits option.splits)
  qed
qed

lemma run_base_reads_once:
  "\<exists>evs. events (snd (run_base e args pre w)) = events w @ evs
      \<and> length (filter (\<lambda>x. x = EvRead) evs) \<le> 1
      \<and> (\<forall>i < length evs. evs ! i = EvRead \<longrightarrow> i = 0)"
proof -
  from run_base_after [of e args pre w] obtain evs3 where
    a: "events (snd (run_base e args pre w)) = events (snd (set_git_provider e args w)) @ evs3"
    and b: "EvRead \<notin> set evs3" by blast
  from set_git_provider_events [of e args w] show ?thesis
  proof
    assume "events (snd (set_git_provider e args w)) = events w"
    with a have "events (snd (run_base e args pre w)) = events w @ evs3" by simp
    moreover from b have "filter (\<lambda>x. x = EvRead) evs3 = []" by (auto simp: filter_empty_conv)
    then have "length (filter (\<lambda>x. x = EvRead) evs3) \<le> 1" by simp
    moreover from b have "\<forall>i < length evs3. evs3 ! i = EvRead \<longrightarrow> i = 0"
      by (auto simp: in_set_conv_nth)
    ultimately show ?thesis by blast
  next
    assume "\<exists>rest. events (snd (set_git_provider e args w)) = events w @ EvRead # rest
         \<and> EvRead \<notin> set rest"
    then obtain rest where r: "events (snd (set_git_provider e args w)) = events w @ EvRead # rest"
      "EvRead \<notin> set rest" by blast
    have n: "EvRead \<notin> set (rest @ evs3)" using r b by simp
    then have f: "filter (\<lambda>x. x = EvRead) (rest @ evs3) = []" by (auto simp: filter_empty_conv)
    have "events (snd (run_base e args pre w)) = events w @ (EvRead # rest @ evs3)"
      using a r by simp
    moreover have "length (filter (\<lambda>x. x = EvRead) (EvRead # rest @ evs3)) \<le> 1"
      using f by simp
    moreover have "\<forall>i < length (EvRead # rest @ evs3). (EvRead # rest @ evs3) ! i = EvRead \<longrightarrow> i = 0"
    proof (intro allI impI)
      fix i assume i: "i < length (EvRead # rest @ evs3)" "(EvRead # rest @ evs3) ! i = EvRead"
      show "i = 0"
      proof (cases i)
        case 0
        then show ?thesis .
      next
        case (Suc k)
        with i have "k < length (rest @ evs3)" "(rest @ evs3) ! k = EvRead" by simp_all
        then have "EvRead \<in> set (rest @ evs3)" by (metis nth_mem)
        with n show ?thesis by contradiction
      qed
    qed
    ultimately show ?thesis by blast
  qed
qed

lemma run_base_example:
  "run_base env_ok args_pr [] (world_of ''token'')
     = (Inr (),
        \<lparr>token_stream = \<lparr>unread = [], closed = False\<rparr>,
         events = [EvRead, EvProviderFactory ''token'', EvIsGithubActions, EvBotRun,
                   EvReportResults]\<rparr>)"
  by (simp add: run_base_def set_git_provider_def set_reporter_def read_def args_pr_def
      env_ok_def world_of_def py_strip_def py_lstrip_def py_rstrip_def py_isspace_def)

text \<open>
  Claim C8, as stated, fails: a successful run that reads the token from an open stream
  returns with the stream still open. No path of \<open>run_base\<close> closes the stream.
\<close>

theorem run_base_stream_left_open_counterexample:
  "\<not> closed (token_stream (world_of ''token''))
   \<and> fst (run_base env_ok args_pr [] (world_of ''token'')) = Inr ()
   \<and> EvRead \<in> set (events (snd (run_base env_ok args_pr [] (world_of ''token''))))
   \<and> \<not> closed (token_stream (snd (run_base env_ok args_pr [] (world_of ''token''))))"
  by (simp add: run_base_example) (simp add: world_of_def)

text \<open>
  Claim C8, amended. On every path of \<open>run_base\<close> (success, an exception of provider
  resolution, of the bot run or of reporting) the token stream is read at most once, a
  read is the first thing the run does, and the run leaves the stream open or closed as
  it found it.
\<close>

theorem run_base_token_stream:
  "\<exists>evs. events (snd (run_base e args pre w)) = events w @ evs
      \<and> length (filter (\<lambda>x. x = EvRead) evs) \<le> 1
      \<and> (\<forall>i < length evs. evs ! i = EvRead \<longrightarrow> i = 0)
      \<and> closed (token_stream (snd (run_base e args pre w))) = closed (token_stream w)"
proof -
  have "closed (token_stream (snd (run_base e args pre w))) = closed (token_stream w)"
    using run_base_after [of e args pre w] set_git_provider_closed [of e args w] by auto
  with run_base_reads_once [of e args pre w] show ?thesis by blast
qed

theorem run_base_token_stream_witness:
  "events (snd (run_base env_ok args_pr [] (world_of ''token'')))
     = [EvRead, EvProviderFactory ''token'', EvIsGithubActions, EvBotRun, EvReportResults]
   \<and> length (filter (\<lambda>x. x = EvRead)
         (events (snd (run_base env_ok args_pr [] (world_of ''token''))))) \<le> 1
   \<and> \<not> closed (token_stream (world_of ''token''))
   \<and> \<not> closed (token_stream (snd (run_base env_ok args_pr [] (world_of ''token''))))"
proof -
  from run_base_token_stream [of env_ok args_pr "[]" "world_of ''token''"]
  obtain evs where
    "events (snd (run_base env_ok args_pr [] (world_of ''token''))) = events (world_of ''token'') @ evs"
    "length (filter (\<lambda>x. x = EvRead) evs) \<le> 1"
    "closed (token_stream (snd (run_base env_ok args_pr [] (world_of ''token''))))
       = closed (token_stream (world_of ''token''))"
    by blast
  then show ?thesis unfolding run_base_example by (auto simp: world_of_def)
qed

section \<open>Properties of handle\_exception\<close>

text \<open>
  Claim C6. \<open>handle_exception\<close> returns the invalid-arguments exit code for every
  \<open>EntrypointInvalidArgException\<close> and the generic error exit code for every other
  exception; with exit codes as the spec gives them, a successful run exits with zero and
  the two failure codes are non-zero and differ from each other.
\<close>

theorem handle_exception_exit_codes:
  "(\<forall>m msg. fst (handle_exception c (EntrypointInvalidArgException m) msg)
               = INVALID_ARGS_EXIT_CODE c)
   \<and> (\<forall>ex msg. (\<forall>m. ex \<noteq> EntrypointInvalidArgException m) \<longrightarrow>
          fst (handle_exception c ex msg) = ERROR_EXIT_CODE c)
   \<and> (exit_codes_as_specified c \<longrightarrow>
        exit_code c (Inr ()) = 0
        \<and> (\<forall>ex. exit_code c (Inl ex) \<noteq> 0)
        \<and> (\<forall>m ex. (\<forall>m'. ex \<noteq> EntrypointInvalidArgException m') \<longrightarrow>
              exit_code c (Inl (EntrypointInvalidArgException m)) \<noteq> exit_code c (Inl ex)))"
proof -
  have a: "\<And>m msg. fst (handle_exception c (EntrypointInvalidArgException m) msg)
               = INVALID_ARGS_EXIT_CODE c"
    by (simp add: handle_exception_def)
  have b: "\<And>ex msg. (\<forall>m. ex \<noteq> EntrypointInvalidArgException m) \<Longrightarrow>
          fst (handle_exception c ex msg) = ERROR_EXIT_CODE c"
  proof -
    fix ex :: py_exception and msg :: string
    assume "\<forall>m. ex \<noteq> EntrypointInvalidArgException m"
    then show "fst (handle_exception c ex msg) = ERROR_EXIT_CODE c"
      by (cases ex) (simp_all add: handle_exception_def)
  qed
  have d: "\<And>ex. exit_code c (Inl ex) = INVALID_ARGS_EXIT_CODE c
                \<or> exit_code c (Inl ex) = ERROR_EXIT_CODE c"
  proof -
    fix ex :: py_exception
    show "exit_code c (Inl ex) = INVALID_ARGS_EXIT_CODE c
                \<or> exit_code c (Inl ex) = ERROR_EXIT_CODE c"
      by (cases ex) (simp_all add: exit_code_def handle_exception_def)
  qed
  have s: "exit_codes_as_specified c \<Longrightarrow> exit_code c (Inr ()) = 0"
    by (simp add: exit_code_def exit_codes_as_specified_def)
  have n: "\<And>ex. exit_codes_as_specified c \<Longrightarrow> exit_code c (Inl ex) \<noteq> 0"
  proof -
    fix ex :: py_exception
    assume "exit_codes_as_specified c"
    with d [of ex] show "exit_code c (Inl ex) \<noteq> 0"
      by (auto simp: exit_codes_as_specified_def)
  qed
  have "\<And>m ex. exit_codes_as_specified c \<Longrightarrow> (\<forall>m'. ex \<noteq> EntrypointInvalidArgException m') \<Longrightarrow>
              exit_code c (Inl (EntrypointInvalidArgException m)) \<noteq> exit_code c (Inl ex)"
    using a b by (simp add: exit_code_def exit_codes_as_specified_def)
  with a b s n show ?thesis by blast
qed

theorem handle_exception_exit_codes_witness:
  "exit_codes_as_specified exit_codes
   \<and> (\<forall>m. ValueError ''boom'' \<noteq> EntrypointInvalidArgException m)
   \<and> fst (handle_exception exit_codes
            (EntrypointInvalidArgException_init ''--with-token'' ''missing'') ''failed'') = 2
   \<and> fst (handle_exception exit_codes (ValueError ''boom'') ''failed'') = 1
   \<and> exit_code exit_codes (Inr ()) = 0
   \<and> exit_code exit_codes (Inl (EntrypointInvalidArgException ''Invalid args''))
       \<noteq> exit_code exit_codes (Inl (ValueError ''boom''))"
proof -
  have h1: "exit_codes_as_specified exit_codes"
    by (simp add: exit_codes_as_specified_def exit_codes_def)
  have h2: "\<forall>m. ValueError ''boom'' \<noteq> EntrypointInvalidArgException m" by simp
  from handle_exception_exit_codes [of exit_codes] h1 h2
  show ?thesis by (simp add: EntrypointInvalidArgException_init_def exit_codes_def)
qed

section \<open>Properties of CommentedMap.insert\<close>

lemma od_move_to_end_mid:
  assumes "distinct (map fst (A @ b # B))"
  shows "od_move_to_end (A @ b # B) (fst b) = Inr (A @ B @ [b])"
proof -
  obtain k v where b: "b = (k, v)" by (cases b)
  from assms b have kA: "k \<notin> fst ` set A" and kB: "k \<notin> fst ` set B" by auto
  from kA have "map_of A k = None" by (simp add: map_of_eq_None_iff)
  then have m: "map_of (A @ b # B) k = Some v" using b by (simp add: map_add_def)
  from kA have fA: "filter (\<lambda>(k', v). k' \<noteq> k) A = A" by (force simp: filter_id_conv)
  from kB have fB: "filter (\<lambda>(k', v). k' \<noteq> k) B = B" by (force simp: filter_id_conv)
  show ?thesis using m fA fB b by (simp add: od_move_to_end_def)
qed

text \<open>
  The loop of \<open>insert\<close> over the keys from a position on moves those entries, in their
  order, behind what was behind them.
\<close>

lemma move_range_to_end_suffix:
  assumes "distinct (map fst (A @ B @ C))"
    and "i + length B = length keys"
    and "drop i keys = map fst B"
  shows "move_range_to_end keys (int i) (int (length keys)) (A @ B @ C) = (None, A @ C @ B)"
  using assms
proof (induction B arbitrary: i C)
  case Nil
  then show ?case by (simp add: move_range_to_end.simps)
next
  case (Cons b B)
  from Cons.prems have lt: "i < length keys" by simp
  from Cons.prems have "keys ! i = fst b"
    by (metis Cons_nth_drop_Suc list.inject list.simps(9) lt)
  with lt have g: "py_list_getitem keys (int i) = Inr (fst b)"
    by (simp add: py_list_getitem_def)
  from Cons.prems have d: "distinct (map fst (A @ b # (B @ C)))" by simp
  have mv: "od_move_to_end (A @ (b # B) @ C) (fst b) = Inr (A @ B @ (C @ [b]))"
    using od_move_to_end_mid [OF d] by simp
  from Cons.prems have d': "distinct (map fst (A @ B @ (C @ [b])))" by auto
  from Cons.prems have l': "Suc i + length B = length keys" by simp
  from Cons.prems have dr: "drop (Suc i) keys = map fst B"
    by (metis drop_Suc list.sel(3) list.simps(9) tl_drop)
  have "move_range_to_end keys (int i) (int (length keys)) (A @ (b # B) @ C)
          = move_range_to_end keys (int (Suc i)) (int (length keys)) (A @ B @ (C @ [b]))"
    using lt g mv by (subst move_range_to_end.simps) (simp add: add.commute)
  also have "\<dots> = (None, A @ (C @ [b]) @ B)"
    by (rule Cons.IH [OF d' l' dr])
  finally show ?case by simp
qed

lemma od_setitem_new: "key \<notin> set (map fst es) \<Longrightarrow> od_setitem es key v = es @ [(key, v)]"
  by (simp add: od_setitem_def)

lemma od_delitem_absent: "key \<notin> set (map fst es) \<Longrightarrow> od_delitem es key = es"
  by (force simp: od_delitem_def filter_id_conv)

lemma od_delitem_keys: "key \<notin> set (map fst (od_delitem es key))"
  by (auto simp: od_delitem_def)

lemma od_delitem_distinct: "distinct (map fst es) \<Longrightarrow> distinct (map fst (od_delitem es key))"
  by (simp add: od_delitem_def distinct_map_filter)

lemma od_getitem_last:
  "key \<notin> set (map fst es) \<Longrightarrow> od_getitem (es @ (key, v) # rest) key = Inr v"
  by (simp add: od_getitem_def map_add_def map_of_eq_None_iff [THEN iffD2] split: option.splits)

text \<open>
  Inserting a new key at a position within the map puts it there; inserting at or
  beyond the length of the map without the key puts it at the end.
\<close>

lemma CommentedMap_insert_new:
  assumes "distinct (map fst es)" "key \<notin> set (map fst es)" "pos \<le> length es"
  shows "CommentedMap_insert (int pos) key v es = (None, take pos es @ (key, v) # drop pos es)"
proof -
  let ?A = "take pos es" and ?B = "drop pos es"
  have d: "distinct (map fst (?A @ ?B @ [(key, v)]))"
  proof -
    have "distinct (map fst (es @ [(key, v)]))" using assms by simp
    then have "distinct (map fst ((?A @ ?B) @ [(key, v)]))" by (simp only: append_take_drop_id)
    then show ?thesis by (simp only: append_assoc)
  qed
  have dr: "drop pos (map fst es) = map fst ?B" by (simp add: drop_map)
  have e: "?A @ ?B @ [(key, v)] = es @ [(key, v)]"
    by (metis append.assoc append_take_drop_id)
  have l: "pos + length ?B = length (map fst es)" using assms by simp
  have "move_range_to_end (map fst es) (int pos) (int (length es)) (es @ [(key, v)])
          = (None, ?A @ [(key, v)] @ ?B)"
    using move_range_to_end_suffix [OF d l dr] unfolding e by simp
  then show ?thesis using assms by (simp add: CommentedMap_insert_def od_setitem_new)
qed

lemma CommentedMap_insert_end:
  assumes "int (length (od_delitem es key)) \<le> pos"
  shows "CommentedMap_insert pos key v es = (None, od_delitem es key @ [(key, v)])"
proof -
  have "od_setitem (od_delitem es key) key v = od_delitem es key @ [(key, v)]"
    by (rule od_setitem_new) (rule od_delitem_keys)
  moreover have "key \<notin> set (map fst es) \<Longrightarrow> od_delitem es key = es"
    by (rule od_delitem_absent)
  ultimately show ?thesis using assms
    by (subst CommentedMap_insert_def) (auto simp: Let_def move_range_to_end.simps)
qed

lemma od_get_None_iff:
  "od_get es key = PyNone \<longleftrightarrow> map_of es key = None \<or> map_of es key = Some PyNone"
  by (simp add: od_get_def split: option.splits)

lemma length_od_delitem_present:
  assumes "distinct (map fst es)" "map_of es key = Some v"
  shows "Suc (length (od_delitem es key)) = length es"
proof -
  from assms(2) have "(key, v) \<in> set es" by (rule map_of_SomeD)
  then obtain A B where es: "es = A @ (key, v) # B" by (auto simp: in_set_conv_decomp)
  with assms(1) have "key \<notin> fst ` set A" "key \<notin> fst ` set B" by auto
  then have "od_delitem A key = A" "od_delitem B key = B"
    by (simp_all add: od_delitem_absent)
  then show ?thesis using es by (simp add: od_delitem_def)
qed


section \<open>Properties of populate\_if\_dict\_field\_not\_exist\<close>

lemma map_of_present_iff: "key \<in> set (map fst es) \<longleftrightarrow> (\<exists>v. map_of es key = Some v)"
  by (metis map_of_eq_None_iff not_None_eq set_map)

lemma od_getitem_Inr_iff: "od_getitem es key = Inr v \<longleftrightarrow> map_of es key = Some v"
  by (simp add: od_getitem_def split: option.splits)

lemma populate_absent:
  assumes "distinct (map fst es)" "field_name \<notin> set (map fst es)" "es \<noteq> []"
  shows "populate_if_dict_field_not_exist (CommentedMap es ca) field_name default_value
           = (Inr default_value,
              CommentedMap (butlast es @ [(field_name, default_value), last es]) ca)"
proof -
  from assms(2) have n: "map_of es field_name = None" by (simp add: map_of_eq_None_iff)
  from assms(3) have p: "int (length es) - 1 = int (length es - 1)" by (cases es) simp_all
  have le: "length es - 1 \<le> length es" by simp
  from assms(3) have t: "take (length es - 1) es = butlast es"
    by (simp add: butlast_conv_take)
  from assms(3) have d: "drop (length es - 1) es = [last es]"
    by (metis append_butlast_last_id append_eq_conv_conj length_butlast)
  have g: "od_getitem (butlast es @ (field_name, default_value) # [last es]) field_name
             = Inr default_value"
    using assms(2) by (intro od_getitem_last) (auto dest: in_set_butlastD)
  have "CommentedMap_insert (int (length es - 1)) field_name default_value es
          = (None, take (length es - 1) es @ (field_name, default_value) # drop (length es - 1) es)"
    by (rule CommentedMap_insert_new [OF assms(1,2) le])
  then have i: "CommentedMap_insert (int (length es) - 1) field_name default_value es
          = (None, butlast es @ [(field_name, default_value), last es])"
    by (simp only: p [symmetric] t d)
  show ?thesis using n i g by (simp add: od_get_def)
qed

lemma populate_present_None:
  assumes "distinct (map fst es)" "map_of es field_name = Some PyNone"
  shows "populate_if_dict_field_not_exist (CommentedMap es ca) field_name default_value
           = (Inr default_value,
              CommentedMap (od_delitem es field_name @ [(field_name, default_value)]) ca)"
proof -
  from length_od_delitem_present [OF assms]
  have "int (length (od_delitem es field_name)) \<le> int (length es) - 1" by simp
  then have i: "CommentedMap_insert (int (length es) - 1) field_name default_value es
                 = (None, od_delitem es field_name @ [(field_name, default_value)])"
    by (rule CommentedMap_insert_end)
  have g: "od_getitem (od_delitem es field_name @ (field_name, default_value) # []) field_name
             = Inr default_value"
    by (rule od_getitem_last) (rule od_delitem_keys)
  show ?thesis using assms(2) i g by (simp add: od_get_def)
qed

lemma populate_present:
  assumes "map_of es field_name = Some v" "v \<noteq> PyNone"
  shows "populate_if_dict_field_not_exist (CommentedMap es ca) field_name default_value
           = (Inr v, CommentedMap es ca)"
  using assms by (simp add: od_get_def od_getitem_def)

lemma od_delitem_twice:
  "od_delitem (od_delitem es key @ [(key, v)]) key = od_delitem es key"
  by (simp add: od_delitem_def)

lemma CommentedMap_insert_examples:
  "CommentedMap_insert 1 ''x'' PyNone [(''a'', Scalar ''1''), (''b'', Scalar ''2'')]
     = (None, [(''a'', Scalar ''1''), (''x'', PyNone), (''b'', Scalar ''2'')])"
  "CommentedMap_insert 2 ''x'' PyNone [(''a'', Scalar ''1''), (''x'', PyNone), (''b'', Scalar ''2'')]
     = (None, [(''a'', Scalar ''1''), (''b'', Scalar ''2''), (''x'', PyNone)])"
  "CommentedMap_insert (- 1) ''x'' (Scalar ''d'') []
     = (Some (IndexError ''list index out of range''), [(''x'', Scalar ''d'')])"
  by (simp_all add: CommentedMap_insert_def od_setitem_def od_delitem_def od_move_to_end_def
      py_list_getitem_def move_range_to_end.simps Let_def)

text \<open>
  Claim C3 fails on the code. The document has the entries \<open>a\<close> and \<open>b\<close>, the field \<open>x\<close> is
  absent and the default is \<open>None\<close>. The first application inserts \<open>x\<close> before the
  trailing entry. At the second application \<open>x\<close> is a key of the document, and the
  docstring says that the call is then a no-op; but the test \<open>data.get(field_name) is
  None\<close> still holds, \<open>x\<close> is deleted and inserted again, and it lands behind the trailing
  entry: the document has changed, and \<open>x\<close> is not at the position the comment of the
  source names. On an empty document the position is \<open>-1\<close> and \<open>insert\<close> raises
  \<open>IndexError\<close>: no value is returned.
\<close>

theorem populate_if_dict_field_not_exist_second_call_moves_field:
  "populate_if_dict_field_not_exist doc_ab ''x'' PyNone
     = (Inr PyNone,
        CommentedMap [(''a'', Scalar ''1''), (''x'', PyNone), (''b'', Scalar ''2'')]
          (Ca [] [] []))
   \<and> populate_if_dict_field_not_exist
        (CommentedMap [(''a'', Scalar ''1''), (''x'', PyNone), (''b'', Scalar ''2'')]
           (Ca [] [] []))
        ''x'' PyNone
     = (Inr PyNone,
        CommentedMap [(''a'', Scalar ''1''), (''b'', Scalar ''2''), (''x'', PyNone)]
          (Ca [] [] []))
   \<and> populate_if_dict_field_not_exist (CommentedMap [] (Ca [] [] [])) ''x'' (Scalar ''d'')
     = (Inl (IndexError ''list index out of range''),
        CommentedMap [(''x'', Scalar ''d'')] (Ca [] [] []))"
  by (simp add: doc_ab_def od_get_def od_getitem_def CommentedMap_insert_examples)

text \<open>
  What holds on every non-empty document: the operation returns the value the field has
  in the document it leaves, and a field that is not a key is inserted immediately
  before the trailing entry with the default, whatever the default is.
\<close>

lemma populate_returns_field_value:
  assumes "distinct (map fst es)"
    and "es \<noteq> []"
  shows "\<exists>v es'. populate_if_dict_field_not_exist (CommentedMap es ca) field_name default_value
                    = (Inr v, CommentedMap es' ca)
          \<and> od_getitem es' field_name = Inr v
          \<and> (field_name \<notin> set (map fst es) \<longrightarrow>
                v = default_value
                \<and> es' = butlast es @ [(field_name, default_value), last es])"
proof (cases "map_of es field_name")
  case None
  then have a: "field_name \<notin> set (map fst es)" by (simp add: map_of_eq_None_iff)
  let ?es' = "butlast es @ [(field_name, default_value), last es]"
  have 1: "populate_if_dict_field_not_exist (CommentedMap es ca) field_name default_value
             = (Inr default_value, CommentedMap ?es' ca)"
    by (rule populate_absent [OF assms(1) a assms(2)])
  have 2: "od_getitem ?es' field_name = Inr default_value"
    using a by (intro od_getitem_last) (auto dest: in_set_butlastD)
  from 1 2 show ?thesis by blast
next
  case (Some v)
  then have pr: "field_name \<in> set (map fst es)" by (metis map_of_present_iff)
  show ?thesis
  proof (cases "v = PyNone")
    case False
    from populate_present [OF Some False] Some pr show ?thesis
      by (auto simp: od_getitem_def)
  next
    case True
    let ?es' = "od_delitem es field_name @ [(field_name, default_value)]"
    from Some True have sn: "map_of es field_name = Some PyNone" by simp
    have 1: "populate_if_dict_field_not_exist (CommentedMap es ca) field_name default_value
             = (Inr default_value, CommentedMap ?es' ca)"
      by (rule populate_present_None [OF assms(1) sn])
    have 2: "od_getitem ?es' field_name = Inr default_value"
      using od_getitem_last [OF od_delitem_keys, of es field_name default_value "[]"] by simp
    from 1 2 pr show ?thesis by blast
  qed
qed

text \<open>
  A second application with the same arguments leaves the document of the first as it
  is when the default is not \<open>None\<close>, or when the field was a key already.
\<close>

lemma populate_second_call_no_change:
  assumes "distinct (map fst es)"
    and "es \<noteq> []"
    and "default_value \<noteq> PyNone \<or> field_name \<in> set (map fst es)"
  shows "\<exists>v es'. populate_if_dict_field_not_exist (CommentedMap es ca) field_name default_value
                    = (Inr v, CommentedMap es' ca)
          \<and> od_getitem es' field_name = Inr v
          \<and> populate_if_dict_field_not_exist (CommentedMap es' ca) field_name default_value
                    = (Inr v, CommentedMap es' ca)
          \<and> (field_name \<notin> set (map fst es) \<longrightarrow>
                v = default_value
                \<and> es' = butlast es @ [(field_name, default_value), last es])"
proof (cases "map_of es field_name")
  case None
  then have a: "field_name \<notin> set (map fst es)" by (simp add: map_of_eq_None_iff)
  with assms(3) have dn: "default_value \<noteq> PyNone" by simp
  let ?es' = "butlast es @ [(field_name, default_value), last es]"
  have 1: "populate_if_dict_field_not_exist (CommentedMap es ca) field_name default_value
             = (Inr default_value, CommentedMap ?es' ca)"
    by (rule populate_absent [OF assms(1) a assms(2)])
  have 2: "od_getitem ?es' field_name = Inr default_value"
    using a by (intro od_getitem_last) (auto dest: in_set_butlastD)
  then have m: "map_of ?es' field_name = Some default_value"
    by (simp only: od_getitem_Inr_iff)
  have 3: "populate_if_dict_field_not_exist (CommentedMap ?es' ca) field_name default_value
             = (Inr default_value, CommentedMap ?es' ca)"
    by (rule populate_present [OF m dn])
  from 1 2 3 show ?thesis by blast
next
  case (Some v)
  then have pr: "field_name \<in> set (map fst es)" by (metis map_of_present_iff)
  show ?thesis
  proof (cases "v = PyNone")
    case False
    from populate_present [OF Some False] Some pr show ?thesis
      by (auto simp: od_getitem_def)
  next
    case True
    let ?es' = "od_delitem es field_name @ [(field_name, default_value)]"
    from Some True have sn: "map_of es field_name = Some PyNone" by simp
    have 1: "populate_if_dict_field_not_exist (CommentedMap es ca) field_name default_value
             = (Inr default_value, CommentedMap ?es' ca)"
      by (rule populate_present_None [OF assms(1) sn])
    have 2: "od_getitem ?es' field_name = Inr default_value"
      using od_getitem_last [OF od_delitem_keys, of es field_name default_value "[]"] by simp
    then have m: "map_of ?es' field_name = Some default_value"
      by (simp only: od_getitem_Inr_iff)
    have d': "distinct (map fst ?es')"
      using od_delitem_distinct [OF assms(1), of field_name] od_delitem_keys [of field_name es]
      by simp
    have 3: "populate_if_dict_field_not_exist (CommentedMap ?es' ca) field_name default_value
             = (Inr default_value, CommentedMap ?es' ca)"
    proof (cases "default_value = PyNone")
      case False
      then show ?thesis by (rule populate_present [OF m])
    next
      case True
      with m have "map_of ?es' field_name = Some PyNone" by simp
      from populate_present_None [OF d' this, of ca default_value]
      show ?thesis by (simp only: od_delitem_twice)
    qed
    from 1 2 3 pr show ?thesis by blast
  qed
qed


text \<open>
  Claim C10. The absence test \<open>data.get(field_name) is None\<close> holds exactly when the
  field is not a key or is a key bound to \<open>None\<close>. A field that is a key bound to
  \<open>None\<close> therefore passes it as an absent field does, and the insert is performed:
  the field is deleted and set again, at the end of the map, with the default value,
  which is returned; unless the default is \<open>None\<close> the document changes.
\<close>

theorem populate_None_bound_field:
  assumes "distinct (map fst es)"
    and "map_of es field_name = Some PyNone"
  shows "(\<forall>data. od_get data field_name = PyNone \<longleftrightarrow>
              map_of data field_name = None \<or> map_of data field_name = Some PyNone)
       \<and> od_get es field_name = PyNone
       \<and> CommentedMap_insert (int (length es) - 1) field_name default_value es
           = (None, od_delitem es field_name @ [(field_name, default_value)])
       \<and> populate_if_dict_field_not_exist (CommentedMap es ca) field_name default_value
           = (Inr default_value,
              CommentedMap (od_delitem es field_name @ [(field_name, default_value)]) ca)
       \<and> (default_value \<noteq> PyNone \<longrightarrow>
            snd (populate_if_dict_field_not_exist (CommentedMap es ca) field_name default_value)
              \<noteq> CommentedMap es ca)"
proof -
  have a: "od_get es field_name = PyNone" using assms(2) by (simp add: od_get_def)
  from length_od_delitem_present [OF assms]
  have "int (length (od_delitem es field_name)) \<le> int (length es) - 1" by simp
  then have b: "CommentedMap_insert (int (length es) - 1) field_name default_value es
                 = (None, od_delitem es field_name @ [(field_name, default_value)])"
    by (rule CommentedMap_insert_end)
  have c: "populate_if_dict_field_not_exist (CommentedMap es ca) field_name default_value
           = (Inr default_value,
              CommentedMap (od_delitem es field_name @ [(field_name, default_value)]) ca)"
    by (rule populate_present_None [OF assms])
  have d: "default_value \<noteq> PyNone \<Longrightarrow>
            snd (populate_if_dict_field_not_exist (CommentedMap es ca) field_name default_value)
              \<noteq> CommentedMap es ca"
  proof
    assume dn: "default_value \<noteq> PyNone"
      and eq: "snd (populate_if_dict_field_not_exist (CommentedMap es ca) field_name default_value)
              = CommentedMap es ca"
    from eq c have "od_delitem es field_name @ [(field_name, default_value)] = es" by simp
    moreover have "od_getitem (od_delitem es field_name @ (field_name, default_value) # [])
                     field_name = Inr default_value"
      by (rule od_getitem_last) (rule od_delitem_keys)
    ultimately have "od_getitem es field_name = Inr default_value" by simp
    with assms(2) have "default_value = PyNone" by (simp add: od_getitem_def)
    with dn show False by contradiction
  qed
  from a b c d od_get_None_iff [of _ field_name] show ?thesis by blast
qed

theorem populate_None_bound_field_witness:
  "distinct (map fst [(''x'', PyNone), (''b'', Scalar ''2'')])
   \<and> map_of [(''x'', PyNone), (''b'', Scalar ''2'')] ''x'' = Some PyNone
   \<and> Scalar ''d'' \<noteq> PyNone
   \<and> populate_if_dict_field_not_exist
        (CommentedMap [(''x'', PyNone), (''b'', Scalar ''2'')] (Ca [] [] [])) ''x'' (Scalar ''d'')
       = (Inr (Scalar ''d''), CommentedMap [(''b'', Scalar ''2''), (''x'', Scalar ''d'')] (Ca [] [] []))"
proof -
  have h1: "distinct (map fst [(''x'', PyNone), (''b'', Scalar ''2'')])" by simp
  have h2: "map_of [(''x'', PyNone), (''b'', Scalar ''2'')] ''x'' = Some PyNone" by simp
  have h3: "od_delitem [(''x'', PyNone), (''b'', Scalar ''2'')] ''x'' = [(''b'', Scalar ''2'')]"
    by (simp add: od_delitem_def)
  from populate_None_bound_field [OF h1 h2, of "Scalar ''d''" "Ca [] [] []"]
  have "populate_if_dict_field_not_exist
          (CommentedMap [(''x'', PyNone), (''b'', Scalar ''2'')] (Ca [] [] [])) ''x'' (Scalar ''d'')
        = (Inr (Scalar ''d''),
           CommentedMap (od_delitem [(''x'', PyNone), (''b'', Scalar ''2'')] ''x''
                           @ [(''x'', Scalar ''d'')]) (Ca [] [] []))"
    by blast
  with h1 h2 h3 show ?thesis by (simp del: populate_if_dict_field_not_exist.simps)
qed

section \<open>Properties of get\_comments\_from\_yaml\_data\<close>

text \<open>Each loop appends to the comments built so far the texts of the tokens it meets.\<close>

lemma comments_of_group_eq:
  "comments_of_group g acc = acc @ map token_value (spec_tokens_of_comment (CommentGroup g))"
  by (induction g acc rule: comments_of_group.induct) simp_all

lemma comments_of_info_eq:
  "comments_of_info info acc = acc @ map token_value (concat (map spec_tokens_of_comment info))"
  by (induction info acc rule: comments_of_info.induct) (simp_all add: comments_of_group_eq)

lemma comments_of_items_eq:
  "comments_of_items items acc = acc @ map token_value (spec_tokens_of_items items)"
  by (induction items acc rule: comments_of_items.induct)
     (simp_all add: comments_of_info_eq spec_tokens_of_items_def)

text \<open>
  Claim C4 fails on the code. The document of the two lines \<open># top\<close> and \<open>a: 1\<close> has one
  comment token, kept in \<open>ca.comment\<close> of its map, and no nested node; a document whose
  one comment token is attached to a key of a nested map has one token too. On both
  \<open>get_comments_from_yaml_data\<close>, whose docstring says "Get all comments from yaml_data",
  returns no entry: it reads \<open>ca.items\<close> of the node it is given and nothing else.
\<close>

theorem get_comments_from_yaml_data_misses_comments:
  "map token_value (spec_document_tokens doc_top) = [''# top'' @ [CHR 0x0A]]
   \<and> get_comments_from_yaml_data doc_top = Inr []
   \<and> map token_value (spec_document_tokens doc_nested) = [''# nested'' @ [CHR 0x0A]]
   \<and> get_comments_from_yaml_data doc_nested = Inr []"
  by (simp add: doc_top_def doc_nested_def spec_tokens_of_ca_def spec_tokens_of_items_def)

text \<open>
  What the code returns for a map or a sequence: the texts of the comment tokens in the
  slots of its own \<open>ca.items\<close>, in the order of \<open>ca.items\<close> and of the slots, single
  comments and groups flattened, \<open>None\<close>, empty groups and other objects skipped.
\<close>

lemma get_comments_from_yaml_data_items:
  "get_comments_from_yaml_data (CommentedMap es ca)
     = Inr (map token_value (spec_tokens_of_items (ca_items ca)))"
  "get_comments_from_yaml_data (CommentedSeq xs seq_ca)
     = Inr (map token_value (spec_tokens_of_items (ca_items seq_ca)))"
  by (simp_all add: comments_of_items_eq spec_tokens_of_items_def)

lemma get_comments_from_yaml_data_examples:
  "get_comments_from_yaml_data doc_flat = Inr [''# p1'', ''# p2'', ''# eol'', ''# b'']"
  "get_comments_from_yaml_data doc_ab = Inr []"
  "get_comments_from_yaml_data PyNone
     = Inl (AttributeError
              ([CHR 0x27] @ ''NoneType'' @ [CHR 0x27] @ '' object has no attribute ''
                 @ [CHR 0x27] @ ''ca'' @ [CHR 0x27]))"
  by (simp_all add: doc_flat_def doc_ab_def no_attribute_def)

end
